theory Spec2Isabelle
  imports Complex_Main "HOL-Library.Sublist"
begin

section \<open>Python text\<close>

text \<open>
  A Python \<^verbatim>\<open>str\<close> is a sequence of Unicode code points; it is modelled as a list of
  natural numbers, one per code point, so that \<open>length\<close>, slicing and \<^verbatim>\<open>[:500]\<close> count what
  Python counts. \<open>lit\<close> turns an ASCII literal into such a text.
\<close>

type_synonym str = "nat list"

definition lit :: "string \<Rightarrow> str" where
  "lit cs = map of_char cs"

text \<open>\<^verbatim>\<open>str.isspace\<close> on one code point (the code points Python 3 strips with \<^verbatim>\<open>strip()\<close>).\<close>

definition isspace :: "nat \<Rightarrow> bool" where
  "isspace c \<longleftrightarrow>
     (9 \<le> c \<and> c \<le> 13) \<or> (28 \<le> c \<and> c \<le> 32) \<or> c = 133 \<or> c = 160 \<or> c = 5760 \<or>
     (8192 \<le> c \<and> c \<le> 8202) \<or> c = 8232 \<or> c = 8233 \<or> c = 8239 \<or> c = 8287 \<or> c = 12288"

text \<open>\<^verbatim>\<open>s.rstrip()\<close>: trailing whitespace removed.\<close>

fun rstrip :: "str \<Rightarrow> str" where
  "rstrip [] = []"
| "rstrip (c # r) = (let t = rstrip r in if t = [] \<and> isspace c then [] else c # t)"

text \<open>\<^verbatim>\<open>s.strip()\<close>: leading and trailing whitespace removed.\<close>

definition strip :: "str \<Rightarrow> str" where
  "strip s = rstrip (dropWhile isspace s)"

text \<open>The index of the first occurrence of \<open>sub\<close> in \<open>s\<close>, if there is one.\<close>

fun find_in :: "str \<Rightarrow> str \<Rightarrow> nat option" where
  "find_in sub [] = (if sub = [] then Some 0 else None)"
| "find_in sub (c # r) =
     (if prefix sub (c # r) then Some 0 else map_option Suc (find_in sub r))"

text \<open>\<^verbatim>\<open>sub in s\<close> for two texts.\<close>

definition contains :: "str \<Rightarrow> str \<Rightarrow> bool" where
  "contains sub s \<longleftrightarrow> find_in sub s \<noteq> None"

text \<open>
  Python's index normalisation for slices and search bounds on a sequence of length \<open>n\<close>:
  a negative index counts from the end, and the result is clamped to \<open>0..n\<close>.
\<close>

definition clamp_index :: "nat \<Rightarrow> int \<Rightarrow> nat" where
  "clamp_index n i = (if i < 0 then nat (max 0 (int n + i)) else min (nat i) n)"

text \<open>\<^verbatim>\<open>s.find(sub, start)\<close>: the lowest index at or after \<open>start\<close>, or \<open>-1\<close>.\<close>

definition find_str :: "str \<Rightarrow> str \<Rightarrow> int \<Rightarrow> int" where
  "find_str s sub start =
     (if int (length s) < start then - 1
      else (let b = clamp_index (length s) start in
            case find_in sub (drop b s) of
              None \<Rightarrow> - 1
            | Some i \<Rightarrow> int (b + i)))"

text \<open>\<^verbatim>\<open>s[i:j]\<close>.\<close>

definition slice :: "str \<Rightarrow> int \<Rightarrow> int \<Rightarrow> str" where
  "slice s i j =
     (let b = clamp_index (length s) i; e = clamp_index (length s) j
      in take (e - b) (drop b s))"

section \<open>JSON values and the decoder\<close>

text \<open>
  The values \<^verbatim>\<open>json.loads\<close> returns. A dict is an association list in insertion order
  with distinct keys; a float is kept as the literal it was read from.
\<close>

datatype json =
    JNull
  | JBool bool
  | JInt int
  | JFloat str
  | JString str
  | JArray "json list"
  | JObject "(str \<times> json) list"

text \<open>\<^verbatim>\<open>d[k] = v\<close> on a dict: an existing key keeps its position, a new key goes last.\<close>

fun dict_set :: "(str \<times> json) list \<Rightarrow> str \<Rightarrow> json \<Rightarrow> (str \<times> json) list" where
  "dict_set [] k v = [(k, v)]"
| "dict_set ((k', v') # d) k v = (if k' = k then (k, v) # d else (k', v') # dict_set d k v)"

text \<open>\<^verbatim>\<open>dict(pairs)\<close>.\<close>

definition dict_of_pairs :: "(str \<times> json) list \<Rightarrow> (str \<times> json) list" where
  "dict_of_pairs pairs = foldl (\<lambda>d (k, v). dict_set d k v) [] pairs"

text \<open>The decoder's whitespace: space, tab, line feed, carriage return.\<close>

definition json_ws :: "nat \<Rightarrow> bool" where
  "json_ws c \<longleftrightarrow> c = 32 \<or> c = 9 \<or> c = 10 \<or> c = 13"

definition skip_ws :: "str \<Rightarrow> str" where
  "skip_ws s = dropWhile json_ws s"

definition is_digit :: "nat \<Rightarrow> bool" where
  "is_digit c \<longleftrightarrow> 48 \<le> c \<and> c \<le> 57"

definition hexval :: "nat \<Rightarrow> nat option" where
  "hexval c =
     (if 48 \<le> c \<and> c \<le> 57 then Some (c - 48)
      else if 97 \<le> c \<and> c \<le> 102 then Some (c - 87)
      else if 65 \<le> c \<and> c \<le> 70 then Some (c - 55)
      else None)"

text \<open>The four hexadecimal digits of a \<^verbatim>\<open>\uXXXX\<close> escape; the text starts after the \<^verbatim>\<open>u\<close>.\<close>

definition decode_uXXXX :: "str \<Rightarrow> (nat \<times> str) option" where
  "decode_uXXXX s =
     (case s of
        a # b # c # d # r \<Rightarrow>
          (case (hexval a, hexval b, hexval c, hexval d) of
             (Some x, Some y, Some z, Some w) \<Rightarrow> Some (((x * 16 + y) * 16 + z) * 16 + w, r)
           | _ \<Rightarrow> None)
      | _ \<Rightarrow> None)"

text \<open>
  One \<^verbatim>\<open>\u\<close> escape with the decoder's surrogate-pair rule: a high surrogate followed by an
  escaped low surrogate is one code point; an invalid second escape is an error.
\<close>

definition unicode_escape :: "str \<Rightarrow> (nat \<times> str) option" where
  "unicode_escape s =
     (case decode_uXXXX s of
        None \<Rightarrow> None
      | Some (uni, r) \<Rightarrow>
          if 55296 \<le> uni \<and> uni \<le> 56319 \<and> take 2 r = [92, 117] then
            (case decode_uXXXX (drop 2 r) of
               None \<Rightarrow> None
             | Some (uni2, r') \<Rightarrow>
                 if 56320 \<le> uni2 \<and> uni2 \<le> 57343
                 then Some (65536 + (uni - 55296) * 1024 + (uni2 - 56320), r')
                 else Some (uni, r))
          else Some (uni, r))"

text \<open>The decoder's table of one-letter escapes.\<close>

definition BACKSLASH :: "nat \<Rightarrow> nat option" where
  "BACKSLASH e =
     (if e = 34 then Some 34 else if e = 92 then Some 92 else if e = 47 then Some 47
      else if e = 98 then Some 8 else if e = 102 then Some 12 else if e = 110 then Some 10
      else if e = 114 then Some 13 else if e = 116 then Some 9 else None)"

text \<open>Both escape readers consume text, which is what makes \<open>scanstring\<close> terminate.\<close>

lemma decode_uXXXX_shorter: "decode_uXXXX s = Some (u, r) \<Longrightarrow> length r < length s"
  by (auto simp: decode_uXXXX_def split: list.splits option.splits)

lemma unicode_escape_shorter: "unicode_escape s = Some (u, r) \<Longrightarrow> length r < length s"
  by (auto simp: unicode_escape_def split: option.splits if_splits
      dest!: decode_uXXXX_shorter)

text \<open>
  \<^verbatim>\<open>scanstring\<close> in strict mode; the text starts after the opening quote. The result is the
  decoded string and the text after the closing quote; \<open>None\<close> is a \<^verbatim>\<open>JSONDecodeError\<close>
  (unterminated string, control character, invalid escape).
\<close>

function scanstring :: "str \<Rightarrow> str \<Rightarrow> (str \<times> str) option" where
  "scanstring chunks [] = None"
| "scanstring chunks (c # r) =
     (if c = 34 then Some (chunks, r)
      else if c = 92 then
        (case r of
           [] \<Rightarrow> None
         | esc # r1 \<Rightarrow>
             if esc \<noteq> 117 then
               (case BACKSLASH esc of
                  None \<Rightarrow> None
                | Some ch \<Rightarrow> scanstring (chunks @ [ch]) r1)
             else
               (case unicode_escape r1 of
                  None \<Rightarrow> None
                | Some (uni, r2) \<Rightarrow> scanstring (chunks @ [uni]) r2))
      else if c < 32 then None
      else scanstring (chunks @ [c]) r)"
  by pat_completeness auto
termination
  by (relation "measure (\<lambda>(chunks, s). length s)")
     (auto dest: unicode_escape_shorter)

text \<open>
  The scanner's number pattern is
  \<^verbatim>\<open>(-?(?:0|[1-9]\d*))(\.\d+)?([eE][-+]?\d+)?\<close>. Each group is matched at the start of
  a text; the result is the matched text, empty when the group does not match.
\<close>

definition match_integer :: "str \<Rightarrow> str" where
  "match_integer s =
     (let sg = (if take 1 s = [45] then [45] else [])
      in case drop (length sg) s of
           [] \<Rightarrow> []
         | d # r \<Rightarrow>
             if d = 48 then sg @ [d]
             else if is_digit d then sg @ d # takeWhile is_digit r
             else [])"

definition match_frac :: "str \<Rightarrow> str" where
  "match_frac s =
     (case s of
        [] \<Rightarrow> []
      | p # r \<Rightarrow> if p = 46 \<and> takeWhile is_digit r \<noteq> [] then p # takeWhile is_digit r else [])"

definition match_exp :: "str \<Rightarrow> str" where
  "match_exp s =
     (case s of
        [] \<Rightarrow> []
      | e # r \<Rightarrow>
          if e = 101 \<or> e = 69 then
            (let sg = (if take 1 r = [45] \<or> take 1 r = [43] then take 1 r else []);
                 ds = takeWhile is_digit (drop (length sg) r)
             in if ds = [] then [] else e # sg @ ds)
          else [])"

text \<open>\<^verbatim>\<open>int(integer)\<close> for a text the integer group matched.\<close>

definition parse_int :: "str \<Rightarrow> int" where
  "parse_int ds =
     (if take 1 ds = [45] then - foldl (\<lambda>a d. 10 * a + (int d - 48)) 0 (drop 1 ds)
      else foldl (\<lambda>a d. 10 * a + (int d - 48)) 0 ds)"

text \<open>
  \<^verbatim>\<open>match_number\<close> and the scanner's use of the three groups: the value and the text after
  the match. A match with a fraction or an exponent is a float.
\<close>

definition match_number :: "str \<Rightarrow> (json \<times> str) option" where
  "match_number s =
     (let integer = match_integer s in
      if integer = [] then None
      else
        (let r1 = drop (length integer) s;
             frac = match_frac r1;
             r2 = drop (length frac) r1;
             ex = match_exp r2;
             r3 = drop (length ex) r2
         in if frac \<noteq> [] \<or> ex \<noteq> [] then Some (JFloat (integer @ frac @ ex), r3)
            else Some (JInt (parse_int integer), r3)))"

text \<open>
  The outcome of a scan: the fuel ran out, the text is not JSON (\<^verbatim>\<open>StopIteration\<close> or
  \<^verbatim>\<open>JSONDecodeError\<close>), or a value and the text after it.
\<close>

datatype 'a scan = OutOfFuel | Fail | Done 'a str

text \<open>
  \<^verbatim>\<open>scan_once\<close>, with the loops of \<^verbatim>\<open>JSONObject\<close> and \<^verbatim>\<open>JSONArray\<close>. The position in the
  text is the remaining text. \<open>JSONObject_loop\<close> starts after the opening quote of a key;
  \<open>JSONArray_loop\<close> starts at a value.
\<close>

fun scan_once :: "nat \<Rightarrow> str \<Rightarrow> json scan"
  and JSONObject_loop :: "nat \<Rightarrow> (str \<times> json) list \<Rightarrow> str \<Rightarrow> json scan"
  and JSONArray_loop :: "nat \<Rightarrow> json list \<Rightarrow> str \<Rightarrow> json scan"
where
  "scan_once 0 s = OutOfFuel"
| "scan_once (Suc n) [] = Fail"
| "scan_once (Suc n) (c # r) =
     (if c = 34 then
        (case scanstring [] r of
           None \<Rightarrow> Fail
         | Some (v, r') \<Rightarrow> Done (JString v) r')
      else if c = 123 then
        (case skip_ws r of
           [] \<Rightarrow> Fail
         | d # r1 \<Rightarrow>
             if d = 125 then Done (JObject []) r1
             else if d = 34 then JSONObject_loop n [] r1
             else Fail)
      else if c = 91 then
        (case skip_ws r of
           [] \<Rightarrow> JSONArray_loop n [] []
         | d # r1 \<Rightarrow>
             if d = 93 then Done (JArray []) r1
             else JSONArray_loop n [] (d # r1))
      else if c = 110 \<and> take 4 (c # r) = lit ''null'' then Done JNull (drop 3 r)
      else if c = 116 \<and> take 4 (c # r) = lit ''true'' then Done (JBool True) (drop 3 r)
      else if c = 102 \<and> take 5 (c # r) = lit ''false'' then Done (JBool False) (drop 4 r)
      else
        (case match_number (c # r) of
           Some (v, r') \<Rightarrow> Done v r'
         | None \<Rightarrow>
             if c = 78 \<and> take 3 (c # r) = lit ''NaN'' then Done (JFloat (lit ''NaN'')) (drop 2 r)
             else if c = 73 \<and> take 8 (c # r) = lit ''Infinity''
               then Done (JFloat (lit ''Infinity'')) (drop 7 r)
             else if c = 45 \<and> take 9 (c # r) = lit ''-Infinity''
               then Done (JFloat (lit ''-Infinity'')) (drop 8 r)
             else Fail))"
| "JSONObject_loop 0 pairs s = OutOfFuel"
| "JSONObject_loop (Suc n) pairs s =
     (case scanstring [] s of
        None \<Rightarrow> Fail
      | Some (key, r) \<Rightarrow>
          (case skip_ws r of
             [] \<Rightarrow> Fail
           | c # r1 \<Rightarrow>
               if c \<noteq> 58 then Fail
               else
                 (case scan_once n (skip_ws r1) of
                    OutOfFuel \<Rightarrow> OutOfFuel
                  | Fail \<Rightarrow> Fail
                  | Done v r2 \<Rightarrow>
                      (case skip_ws r2 of
                         [] \<Rightarrow> Fail
                       | d # r3 \<Rightarrow>
                           if d = 125 then Done (JObject (dict_of_pairs (pairs @ [(key, v)]))) r3
                           else if d \<noteq> 44 then Fail
                           else
                             (case skip_ws r3 of
                                [] \<Rightarrow> Fail
                              | q # r4 \<Rightarrow>
                                  if q \<noteq> 34 then Fail
                                  else JSONObject_loop n (pairs @ [(key, v)]) r4)))))"
| "JSONArray_loop 0 values s = OutOfFuel"
| "JSONArray_loop (Suc n) values s =
     (case scan_once n s of
        OutOfFuel \<Rightarrow> OutOfFuel
      | Fail \<Rightarrow> Fail
      | Done v r \<Rightarrow>
          (case skip_ws r of
             [] \<Rightarrow> Fail
           | d # r1 \<Rightarrow>
               if d = 93 then Done (JArray (values @ [v])) r1
               else if d \<noteq> 44 then Fail
               else JSONArray_loop n (values @ [v]) (skip_ws r1)))"

text \<open>
  \<^verbatim>\<open>json.loads(s)\<close> for a text: leading whitespace is skipped, one value is scanned, and
  anything but whitespace after it is an error (\<^verbatim>\<open>Extra data\<close>). \<open>None\<close> is
  \<^verbatim>\<open>JSONDecodeError\<close>. The fuel is two steps per character, which is never used up
  (\<open>json_loads_fuel\<close> below). The limits of the interpreter are not part of the model: the
  depth of recursion and the number of digits it accepts in an integer.
\<close>

definition json_loads :: "str \<Rightarrow> json option" where
  "json_loads s =
     (case scan_once (2 * length (skip_ws s) + 1) (skip_ws s) of
        Done v r \<Rightarrow> if skip_ws r = [] then Some v else None
      | _ \<Rightarrow> None)"

section \<open>Exceptions\<close>

text \<open>
  The exceptions the analysis agent can meet. All are subclasses of \<^verbatim>\<open>Exception\<close>;
  \<^verbatim>\<open>JSONDecodeError\<close> is a subclass of \<^verbatim>\<open>ValueError\<close>, so a handler for
  \<^verbatim>\<open>JSONDecodeError\<close> does not catch a plain \<^verbatim>\<open>ValueError\<close>. \<open>ClientError\<close> stands for
  any exception the remote model client raises, with its message.
\<close>

datatype exn =
    JSONDecodeError
  | ValueError str
  | TypeError
  | AttributeError
  | KeyError
  | IndexError
  | ClientError str

section \<open>The response extractor: \<^verbatim>\<open>ImageAnalysisAgent._parse_analysis_response\<close>\<close>

definition fence_json :: str where
  "fence_json = lit ''```json''"

definition fence :: str where
  "fence = lit ''```''"

text \<open>
  The selection of the JSON text (the \<^verbatim>\<open>if\<close>/\<^verbatim>\<open>elif\<close>/\<^verbatim>\<open>else\<close> at the head of the
  \<^verbatim>\<open>try\<close> block): the tagged fence first, then any fence, then the whole text.
\<close>

definition extract_json_str :: "str \<Rightarrow> str" where
  "extract_json_str response_text =
     (if contains fence_json response_text then
        (let start = find_str response_text fence_json 0 + 7;
             end' = find_str response_text fence start
         in strip (slice response_text start end'))
      else if contains fence response_text then
        (let start = find_str response_text fence 0 + 3;
             end' = find_str response_text fence start
         in strip (slice response_text start end'))
      else strip response_text)"

definition required_fields :: "str list" where
  "required_fields =
     [lit ''provider'', lit ''detected_components'', lit ''complexity'',
      lit ''estimated_monthly_cost'']"

text \<open>
  \<^verbatim>\<open>field in data\<close>: key membership for a dict, element membership for a list, substring
  search for a string, and \<^verbatim>\<open>TypeError\<close> for a value that is not a container.
\<close>

fun field_in :: "str \<Rightarrow> json \<Rightarrow> exn + bool" where
  "field_in field (JObject d) = Inr (map_of d field \<noteq> None)"
| "field_in field (JArray vs) = Inr (JString field \<in> set vs)"
| "field_in field (JString t) = Inr (contains field t)"
| "field_in field JNull = Inl TypeError"
| "field_in field (JBool b) = Inl TypeError"
| "field_in field (JInt i) = Inl TypeError"
| "field_in field (JFloat f) = Inl TypeError"

text \<open>The loop over the required fields: the first missing one raises \<^verbatim>\<open>ValueError\<close>.\<close>

fun check_required :: "str list \<Rightarrow> json \<Rightarrow> exn + unit" where
  "check_required [] data = Inr ()"
| "check_required (field # fields) data =
     (case field_in field data of
        Inl e \<Rightarrow> Inl e
      | Inr present \<Rightarrow>
          if \<not> present then Inl (ValueError (lit ''Missing required field: '' @ field))
          else check_required fields data)"

text \<open>\<^verbatim>\<open>data[key]\<close> with a string key.\<close>

fun getitem :: "json \<Rightarrow> str \<Rightarrow> exn + json" where
  "getitem (JObject d) key = (case map_of d key of None \<Rightarrow> Inl KeyError | Some v \<Rightarrow> Inr v)"
| "getitem v key = Inl TypeError"

text \<open>\<^verbatim>\<open>v.upper()\<close>: only a string has the method; the upper-cased text is only logged.\<close>

fun call_upper :: "json \<Rightarrow> exn + unit" where
  "call_upper (JString t) = Inr ()"
| "call_upper v = Inl AttributeError"

text \<open>\<^verbatim>\<open>len(v)\<close>.\<close>

fun py_len :: "json \<Rightarrow> exn + nat" where
  "py_len (JString t) = Inr (length t)"
| "py_len (JArray vs) = Inr (length vs)"
| "py_len (JObject d) = Inr (length d)"
| "py_len v = Inl TypeError"

text \<open>
  The message of the \<^verbatim>\<open>logger.info\<close> call after validation is built before the call, from
  \<^verbatim>\<open>data['provider'].upper()\<close>, \<^verbatim>\<open>len(data['detected_components'])\<close> and
  \<^verbatim>\<open>data['estimated_monthly_cost']\<close>, in this order. Only the exceptions of building it
  are modelled; the log line itself is not.
\<close>

definition log_parsed :: "json \<Rightarrow> exn + unit" where
  "log_parsed data =
     (case getitem data (lit ''provider'') of
        Inl e \<Rightarrow> Inl e
      | Inr p \<Rightarrow>
          (case call_upper p of
             Inl e \<Rightarrow> Inl e
           | Inr _ \<Rightarrow>
               (case getitem data (lit ''detected_components'') of
                  Inl e \<Rightarrow> Inl e
                | Inr c \<Rightarrow>
                    (case py_len c of
                       Inl e \<Rightarrow> Inl e
                     | Inr _ \<Rightarrow>
                         (case getitem data (lit ''estimated_monthly_cost'') of
                            Inl e \<Rightarrow> Inl e
                          | Inr _ \<Rightarrow> Inr ())))))"

text \<open>What follows \<^verbatim>\<open>json.loads\<close> inside the \<^verbatim>\<open>try\<close> block: validation, logging, return.\<close>

definition validate_data :: "json \<Rightarrow> exn + json" where
  "validate_data data =
     (case check_required required_fields data of
        Inl e \<Rightarrow> Inl e
      | Inr _ \<Rightarrow>
          (case log_parsed data of
             Inl e \<Rightarrow> Inl e
           | Inr _ \<Rightarrow> Inr data))"

text \<open>The default structure the \<^verbatim>\<open>except json.JSONDecodeError\<close> handler returns.\<close>

definition failure_default :: "str \<Rightarrow> json" where
  "failure_default response_text =
     JObject
       [(lit ''provider'', JString (lit ''aws'')),
        (lit ''detected_components'', JArray []),
        (lit ''complexity'', JString (lit ''medium'')),
        (lit ''estimated_monthly_cost'', JInt 0),
        (lit ''connections'', JArray []),
        (lit ''error'', JString (lit ''Failed to parse AI response'')),
        (lit ''raw_response'', JString (take 500 response_text))]"

text \<open>
  \<^verbatim>\<open>_parse_analysis_response\<close>. \<open>Inl\<close> is an exception that leaves the function: the
  handler catches \<^verbatim>\<open>json.JSONDecodeError\<close> only.
\<close>

definition parse_analysis_response :: "str \<Rightarrow> exn + json" where
  "parse_analysis_response response_text =
     (let json_str = extract_json_str response_text in
      case json_loads json_str of
        None \<Rightarrow> Inr (failure_default response_text)
      | Some data \<Rightarrow> validate_data data)"




section \<open>The diagram analysis client: \<^verbatim>\<open>ImageAnalysisAgent.analyze_architecture_diagram\<close>\<close>









section \<open>The image normalizer: \<^verbatim>\<open>ImageProcessor\<close>\<close>

text \<open>A byte sequence; \<open>char\<close> is a byte.\<close>

type_synonym bytes = string

text \<open>
  An image in memory, as far as the code looks at it: the format of the file it was read
  from, the mode, the size (width, height) and the pixels, row by row, each pixel the list
  of its band values (\<open>0..255\<close>).
\<close>

record image =
  im_format :: "str option"
  im_mode :: str
  im_size :: "nat \<times> nat"
  im_data :: "nat list list"

text \<open>
  What the imaging library decides and this code does not: decoding a file, the pixel
  values of a mode conversion, the pixel values of a resampled image, and PNG encoding.
  Each can raise; \<open>Inl\<close> carries \<^verbatim>\<open>str(e)\<close> of the exception.
\<close>

record pil =
  image_open :: "bytes \<Rightarrow> str + image"
  convert_data :: "image \<Rightarrow> str \<Rightarrow> str + nat list list"
  resample :: "image \<Rightarrow> nat \<times> nat \<Rightarrow> str + nat list list"
  save_png :: "image \<Rightarrow> str + bytes"

definition MAX_WIDTH :: nat where
  "MAX_WIDTH = 1920"

definition MAX_HEIGHT :: nat where
  "MAX_HEIGHT = 1920"

definition MAX_FILE_SIZE :: nat where
  "MAX_FILE_SIZE = 10 * 1024 * 1024"

definition SUPPORTED_FORMATS :: "str set" where
  "SUPPORTED_FORMATS = {lit ''PNG'', lit ''JPEG'', lit ''JPG'', lit ''WEBP''}"

text \<open>\<^verbatim>\<open>', '.join(names)\<close>.\<close>

fun join_comma :: "str list \<Rightarrow> str" where
  "join_comma [] = []"
| "join_comma [x] = x"
| "join_comma (x # y # r) = x @ lit '', '' @ join_comma (y # r)"

text \<open>
  \<^verbatim>\<open>validate_image\<close>. The file name is an argument the code never reads. \<open>listing\<close> is the
  order in which the set of supported formats is iterated for the message, which Python
  does not fix. The size limit in the message is \<^verbatim>\<open>MAX_FILE_SIZE / 1024 / 1024\<close>, printed
  as \<^verbatim>\<open>10.0\<close>.
\<close>

definition validate_image :: "pil \<Rightarrow> str list \<Rightarrow> bytes \<Rightarrow> str \<Rightarrow> bool \<times> str" where
  "validate_image lib listing file_content filename =
     (if length file_content > MAX_FILE_SIZE
      then (False, lit ''File size exceeds maximum of 10.0MB'')
      else
        (case image_open lib file_content of
           Inl e \<Rightarrow> (False, lit ''Invalid image file: '' @ e)
         | Inr img \<Rightarrow>
             (case im_format img of
                None \<Rightarrow>
                  (False, lit ''Unsupported format: None. Supported: '' @ join_comma listing)
              | Some f \<Rightarrow>
                  if f \<notin> SUPPORTED_FORMATS
                  then (False, lit ''Unsupported format: '' @ f @ lit ''. Supported: ''
                                 @ join_comma listing)
                  else (True, []))))"

text \<open>\<^verbatim>\<open>Image.new('RGB', size, color)\<close>.\<close>

definition Image_new :: "nat \<times> nat \<Rightarrow> nat list \<Rightarrow> image" where
  "Image_new sz color =
     \<lparr>im_format = None, im_mode = lit ''RGB'', im_size = sz,
      im_data = replicate (fst sz * snd sz) color\<rparr>"

text \<open>\<^verbatim>\<open>img.convert(mode)\<close>: an image of that mode and the same size.\<close>

definition convert :: "pil \<Rightarrow> image \<Rightarrow> str \<Rightarrow> str + image" where
  "convert lib img m =
     (case convert_data lib img m of
        Inl e \<Rightarrow> Inl e
      | Inr px \<Rightarrow> Inr \<lparr>im_format = None, im_mode = m, im_size = im_size img, im_data = px\<rparr>)"

text \<open>\<^verbatim>\<open>img.split()[-1]\<close>: the last band, pixel by pixel.\<close>

definition last_band :: "image \<Rightarrow> nat list" where
  "last_band img = map last (im_data img)"

text \<open>
  The colour bytes the library pastes from a pixel into an RGB image: the first three
  bands of an RGB or RGBA pixel, the grey value three times for an L or LA pixel.
\<close>

definition colour_of :: "nat list \<Rightarrow> nat list" where
  "colour_of px = (if length px \<ge> 3 then take 3 px else replicate 3 (hd px))"

text \<open>The library's blend of two 8-bit values under an 8-bit mask.\<close>

definition MULDIV255 :: "nat \<Rightarrow> nat \<Rightarrow> nat" where
  "MULDIV255 a b = (let tmp = a * b + 128 in (tmp div 256 + tmp) div 256)"

definition BLEND8 :: "nat \<Rightarrow> nat \<Rightarrow> nat \<Rightarrow> nat" where
  "BLEND8 msk in1 in2 = MULDIV255 in1 (255 - msk) + MULDIV255 in2 msk"

text \<open>
  \<^verbatim>\<open>background.paste(img, mask=mask)\<close> for an image of the size of the background: with a
  mask, every band of every pixel is blended under the mask value of the pixel; without
  one, the pixel is replaced.
\<close>

definition paste :: "image \<Rightarrow> image \<Rightarrow> nat list option \<Rightarrow> image" where
  "paste background img msk =
     background
       \<lparr>im_data :=
          (case msk of
             None \<Rightarrow> map colour_of (im_data img)
           | Some m \<Rightarrow>
               map (\<lambda>(out, src, a). map (\<lambda>(b1, b2). BLEND8 a b1 b2) (zip out (colour_of src)))
                 (zip (im_data background) (zip (im_data img) m)))\<rparr>"

text \<open>\<^verbatim>\<open>if img.mode == 'P': img = img.convert('RGBA')\<close>.\<close>

definition expand_palette :: "pil \<Rightarrow> image \<Rightarrow> str + image" where
  "expand_palette lib img =
     (if im_mode img = lit ''P'' then convert lib img (lit ''RGBA'') else Inr img)"

text \<open>
  The conversion to RGB, which \<^verbatim>\<open>process_image\<close> and \<^verbatim>\<open>pdf_to_image\<close> both have: an image
  with an alpha band or a palette is pasted on a white background of its size, under its
  last band as mask; any other image that is not RGB is converted.
\<close>

definition to_rgb :: "pil \<Rightarrow> image \<Rightarrow> str + image" where
  "to_rgb lib img =
     (if im_mode img \<in> {lit ''RGBA'', lit ''LA'', lit ''P''} then
        (let background = Image_new (im_size img) [255, 255, 255] in
         case expand_palette lib img of
           Inl e \<Rightarrow> Inl e
         | Inr img' \<Rightarrow>
             Inr (paste background img'
                    (if im_mode img' \<in> {lit ''RGBA'', lit ''LA''}
                     then Some (last_band img') else None)))
      else if im_mode img \<noteq> lit ''RGB'' then convert lib img (lit ''RGB'')
      else Inr img)"

text \<open>
  The size \<^verbatim>\<open>Image.thumbnail\<close> gives an image of size \<open>(w, h)\<close> for the requested size
  \<open>(x, y)\<close>: nothing when the image fits, otherwise the side that keeps the aspect ratio
  best, rounded down or up, whichever is nearer in aspect, and at least one. The library
  computes the quotients in floating point; they are exact rationals here. A height of
  zero is a division by zero.
\<close>

definition round_aspect :: "rat \<Rightarrow> (int \<Rightarrow> rat) \<Rightarrow> nat" where
  "round_aspect number key =
     nat (max (if key \<lfloor>number\<rfloor> \<le> key \<lceil>number\<rceil> then \<lfloor>number\<rfloor> else \<lceil>number\<rceil>) 1)"

definition preserve_aspect_ratio :: "nat \<times> nat \<Rightarrow> nat \<times> nat \<Rightarrow> str + (nat \<times> nat) option" where
  "preserve_aspect_ratio sz provided_size =
     (let (w, h) = sz; (x, y) = provided_size in
      if x \<ge> w \<and> y \<ge> h then Inr None
      else if h = 0 then Inl (lit ''division by zero'')
      else
        (let aspect = (of_nat w / of_nat h :: rat) in
         if of_nat x / of_nat y \<ge> aspect
         then Inr (Some (round_aspect (of_nat y * aspect)
                           (\<lambda>n. \<bar>aspect - of_int n / of_nat y\<bar>), y))
         else Inr (Some (x, round_aspect (of_nat x / aspect)
                              (\<lambda>n. if n = 0 then 0 else \<bar>aspect - of_nat x / of_int n\<bar>)))))"

text \<open>\<^verbatim>\<open>img.thumbnail(size, LANCZOS)\<close>: the image resampled to that size, in its mode.\<close>

definition thumbnail :: "pil \<Rightarrow> image \<Rightarrow> nat \<times> nat \<Rightarrow> str + image" where
  "thumbnail lib img provided_size =
     (case preserve_aspect_ratio (im_size img) provided_size of
        Inl e \<Rightarrow> Inl e
      | Inr None \<Rightarrow> Inr img
      | Inr (Some final_size) \<Rightarrow>
          if im_size img \<noteq> final_size then
            (case resample lib img final_size of
               Inl e \<Rightarrow> Inl e
             | Inr px \<Rightarrow> Inr (img\<lparr>im_size := final_size, im_data := px\<rparr>))
          else Inr img)"

text \<open>The resize step of \<^verbatim>\<open>process_image\<close>.\<close>

definition resize_if_large :: "pil \<Rightarrow> image \<Rightarrow> str + image" where
  "resize_if_large lib img =
     (if fst (im_size img) > MAX_WIDTH \<or> snd (im_size img) > MAX_HEIGHT
      then thumbnail lib img (MAX_WIDTH, MAX_HEIGHT)
      else Inr img)"

text \<open>
  The image \<^verbatim>\<open>process_image\<close> encodes: the decoded file, made RGB, made small. \<open>Inl\<close> is an
  exception inside the \<^verbatim>\<open>try\<close> block.
\<close>

definition normalized_image :: "pil \<Rightarrow> bytes \<Rightarrow> str + image" where
  "normalized_image lib file_content =
     (case image_open lib file_content of
        Inl e \<Rightarrow> Inl e
      | Inr img \<Rightarrow>
          (case to_rgb lib img of
             Inl e \<Rightarrow> Inl e
           | Inr rgb \<Rightarrow> resize_if_large lib rgb))"

text \<open>
  \<^verbatim>\<open>process_image\<close>: the handler turns every exception of the block into the pair of
  nothing and the text of the exception.
\<close>

definition process_image :: "pil \<Rightarrow> bytes \<Rightarrow> bytes option \<times> str option" where
  "process_image lib file_content =
     (case normalized_image lib file_content of
        Inl e \<Rightarrow> (None, Some e)
      | Inr img \<Rightarrow>
          (case save_png lib img of
             Inl e \<Rightarrow> (None, Some e)
           | Inr processed_bytes \<Rightarrow> (Some processed_bytes, None)))"

section \<open>The PDF rasterizer: \<^verbatim>\<open>PDFConverter.pdf_to_image\<close>\<close>

text \<open>\<^verbatim>\<open>str(n)\<close> for an integer.\<close>

fun digits :: "nat \<Rightarrow> str" where
  "digits n = (if n < 10 then [48 + n] else digits (n div 10) @ [48 + n mod 10])"

declare digits.simps [simp del]

definition str_int :: "int \<Rightarrow> str" where
  "str_int i = (if i < 0 then 45 # digits (nat (- i)) else digits (nat i))"

text \<open>
  \<^verbatim>\<open>pdf_to_image\<close>. \<open>convert_from_bytes\<close> is the rendering library at the fixed resolution:
  it gives the images of the pages from \<open>first_page\<close> to \<open>last_page\<close>, or raises.
\<close>

definition pdf_to_image ::
  "pil \<Rightarrow> (bytes \<Rightarrow> int \<Rightarrow> int \<Rightarrow> str + image list) \<Rightarrow> bytes \<Rightarrow> int
     \<Rightarrow> bytes option \<times> str option" where
  "pdf_to_image lib convert_from_bytes pdf_content page_number =
     (case convert_from_bytes pdf_content page_number page_number of
        Inl e \<Rightarrow> (None, Some e)
      | Inr images \<Rightarrow>
          (case images of
             [] \<Rightarrow> (None, Some (lit ''Could not convert PDF page '' @ str_int page_number))
           | img # _ \<Rightarrow>
               (case to_rgb lib img of
                  Inl e \<Rightarrow> (None, Some e)
                | Inr rgb \<Rightarrow>
                    (case save_png lib rgb of
                       Inl e \<Rightarrow> (None, Some e)
                     | Inr image_bytes \<Rightarrow> (Some image_bytes, None)))))"

section \<open>A stub imaging library\<close>

text \<open>
  A stand-in for the imaging library, to run the normalizer on concrete files. It knows
  four files: a 2 by 1 RGBA image whose first pixel is fully transparent, the normalized
  form of that image, a 4000 by 3000 RGB image and a paletted GIF; the pixels of the large
  image are left out. It cannot convert modes, gives no pixels when it resamples, and
  names the file it encodes after the size of the image.
\<close>

definition sample_rgba :: image where
  "sample_rgba =
     \<lparr>im_format = Some (lit ''PNG''), im_mode = lit ''RGBA'', im_size = (2, 1),
      im_data = [[10, 20, 30, 0], [10, 20, 30, 255]]\<rparr>"

definition sample_rgb :: image where
  "sample_rgb =
     \<lparr>im_format = Some (lit ''PNG''), im_mode = lit ''RGB'', im_size = (2, 1),
      im_data = [[255, 255, 255], [10, 20, 30]]\<rparr>"

definition sample_large :: image where
  "sample_large =
     \<lparr>im_format = Some (lit ''JPEG''), im_mode = lit ''RGB'', im_size = (4000, 3000),
      im_data = []\<rparr>"

definition sample_gif :: image where
  "sample_gif =
     \<lparr>im_format = Some (lit ''GIF''), im_mode = lit ''P'', im_size = (1, 1),
      im_data = [[0]]\<rparr>"

definition sample_pil :: pil where
  "sample_pil =
     \<lparr>image_open = (\<lambda>b.
        if b = ''small.png'' then Inr sample_rgba
        else if b = ''small-rgb.png'' then Inr sample_rgb
        else if b = ''large.jpg'' then Inr sample_large
        else if b = ''diagram.gif'' then Inr sample_gif
        else Inl (lit ''cannot identify image file'')),
      convert_data = (\<lambda>img m. Inl (lit ''conversion not supported'')),
      resample = (\<lambda>img sz. Inr []),
      save_png = (\<lambda>img.
        if im_size img = (2, 1) then Inr ''small-rgb.png'' else Inr ''large-rgb.png'')\<rparr>"

text \<open>A rendering library that finds no page.\<close>

definition no_pages :: "bytes \<Rightarrow> int \<Rightarrow> int \<Rightarrow> str + image list" where
  "no_pages pdf_content first_page last_page = Inr []"

section \<open>Properties of the decoder\<close>

text \<open>
  Every successful scan consumes text, so two units of fuel per character are enough:
  \<open>json_loads\<close> never answers \<open>None\<close> for lack of fuel.
\<close>

lemma scanstring_shorter: "scanstring chunks s = Some (v, r) \<Longrightarrow> length r < length s"
proof (induction chunks s rule: scanstring.induct)
  case (1 chunks)
  then show ?case by simp
next
  case (2 chunks c r')
  show ?case
  proof (cases "c = 34")
    case True
    with "2.prems" show ?thesis by simp
  next
    case c34: False
    show ?thesis
    proof (cases "c = 92")
      case False
      with c34 "2.prems" have "\<not> c < 32" "scanstring (chunks @ [c]) r' = Some (v, r)"
        by (auto split: if_splits)
      with "2.IH"(3) [OF c34 False] show ?thesis by fastforce
    next
      case True
      with c34 "2.prems" obtain esc r1 where r': "r' = esc # r1"
        by (cases r') auto
      show ?thesis
      proof (cases "esc = 117")
        case False
        with True c34 r' "2.prems" obtain ch where ch: "BACKSLASH esc = Some ch"
          "scanstring (chunks @ [ch]) r1 = Some (v, r)"
          by (auto split: option.splits)
        from "2.IH"(1) [OF c34 True r' False ch(1)] ch(2) r' show ?thesis by simp
      next
        case u: True
        with True c34 r' "2.prems" obtain uni r2 where ue: "unicode_escape r1 = Some (uni, r2)"
          "scanstring (chunks @ [uni]) r2 = Some (v, r)"
          by (auto split: option.splits)
        from "2.IH"(2) [OF c34 True r' _ ue(1)] u ue(2)
        have "length r < length r2" by simp
        with unicode_escape_shorter [OF ue(1)] r' show ?thesis by simp
      qed
    qed
  qed
qed


lemma skip_ws_le: "length (skip_ws s) \<le> length s"
  by (simp add: skip_ws_def length_dropWhile_le)

lemma skip_ws_Cons_less: "skip_ws s = c # r \<Longrightarrow> length r < length s"
  using skip_ws_le [of s] by simp

lemma takeWhile_prefix: "prefix (takeWhile P xs) xs"
  by (metis prefixI takeWhile_dropWhile_id)

lemma match_integer_prefix: "prefix (match_integer s) s"
proof -
  define sg :: str where "sg = (if take 1 s = [45] then [45] else [])"
  define t where "t = drop (length sg) s"
  have s: "s = sg @ t"
    unfolding t_def sg_def by (cases s) (auto split: if_splits)
  have m: "match_integer s =
      (case t of [] \<Rightarrow> []
       | d # r \<Rightarrow> if d = 48 then sg @ [d]
                  else if is_digit d then sg @ d # takeWhile is_digit r else [])"
    unfolding match_integer_def Let_def t_def sg_def by simp
  have "prefix (match_integer s) (sg @ t)"
    unfolding m by (cases t) (simp_all add: takeWhile_prefix)
  with s show ?thesis by simp
qed

lemma match_number_shorter: "match_number s = Some (v, r) \<Longrightarrow> length r < length s"
proof -
  assume a: "match_number s = Some (v, r)"
  let ?i = "match_integer s"
  from a have ne: "?i \<noteq> []" by (auto simp: match_number_def Let_def split: if_splits)
  have le: "length ?i \<le> length s"
    using match_integer_prefix by (rule prefix_length_le)
  from a ne have "length r \<le> length s - length ?i"
    by (auto simp: match_number_def Let_def split: if_splits)
  with ne le show ?thesis by (cases ?i) auto
qed


lemma scan_shorter:
  "scan_once n s = Done v r \<Longrightarrow> length r < length s"
  "JSONObject_loop n pairs s = Done v r \<Longrightarrow> length r < length s"
  "JSONArray_loop n vs s = Done v r \<Longrightarrow> length r < length s"
proof (induction n s and n pairs s and n vs s arbitrary: v r and v r and v r
    rule: scan_once_JSONObject_loop_JSONArray_loop.induct)
  case (1 s)
  then show ?case by simp
next
  case (2 n)
  then show ?case by simp
next
  case (3 n c t)
  show ?case
  proof (cases "c = 34")
    case True
    with "3.prems" show ?thesis
      by (auto split: option.splits dest: scanstring_shorter)
  next
    case q: False
    show ?thesis
    proof (cases "c = 123")
      case True
      with q "3.prems" obtain d r1 where sk: "skip_ws t = d # r1"
        by (cases "skip_ws t") auto
      from skip_ws_Cons_less [OF sk] have l1: "length r1 < length t" .
      show ?thesis
      proof (cases "d = 125")
        case True
        with q \<open>c = 123\<close> sk "3.prems" l1 show ?thesis by simp
      next
        case False
        with q \<open>c = 123\<close> sk "3.prems" have d34: "d = 34"
          and lp: "JSONObject_loop n [] r1 = Done v r"
          by (auto split: if_splits)
        from "3.IH"(1) [OF q \<open>c = 123\<close> sk False d34 lp] l1 show ?thesis by simp
      qed
    next
      case b: False
      show ?thesis
      proof (cases "c = 91")
        case True
        show ?thesis
        proof (cases "skip_ws t")
          case Nil
          with q b True "3.prems" have "JSONArray_loop n [] [] = Done v r" by simp
          from "3.IH"(2) [OF q b True Nil this] show ?thesis by simp
        next
          case (Cons d r1)
          from skip_ws_Cons_less [OF Cons] have l1: "length r1 < length t" .
          show ?thesis
          proof (cases "d = 93")
            case True
            with q b \<open>c = 91\<close> Cons "3.prems" l1 show ?thesis by simp
          next
            case False
            with q b \<open>c = 91\<close> Cons "3.prems"
            have lp: "JSONArray_loop n [] (d # r1) = Done v r" by simp
            from "3.IH"(3) [OF q b \<open>c = 91\<close> Cons False lp] l1 show ?thesis by simp
          qed
        qed
      next
        case a: False
        from q b a "3.prems" show ?thesis
          by (auto split: if_splits option.splits dest: match_number_shorter)
      qed
    qed
  qed
next
  case (4 pairs s)
  then show ?case by simp
next
  case (5 n pairs s)
  from "5.prems" obtain key r0 where ss: "scanstring [] s = Some (key, r0)"
    by (auto split: option.splits)
  from scanstring_shorter [OF ss] have l0: "length r0 < length s" .
  from "5.prems" ss obtain c r1 where sk: "skip_ws r0 = c # r1"
    by (cases "skip_ws r0") auto
  from skip_ws_Cons_less [OF sk] have l1: "length r1 < length r0" .
  from "5.prems" ss sk have c58: "\<not> c \<noteq> 58" by (auto split: if_splits)
  from "5.prems" ss sk c58 obtain v1 r2 where so: "scan_once n (skip_ws r1) = Done v1 r2"
    by (cases "scan_once n (skip_ws r1)") auto
  from "5.IH"(1) [OF ss refl sk c58 so] skip_ws_le [of r1]
  have l2: "length r2 < length r1" by simp
  from "5.prems" ss sk c58 so obtain d r3 where sk2: "skip_ws r2 = d # r3"
    by (cases "skip_ws r2") auto
  from skip_ws_Cons_less [OF sk2] have l3: "length r3 < length r2" .
  show ?case
  proof (cases "d = 125")
    case True
    with "5.prems" ss sk c58 so sk2 l0 l1 l2 l3 show ?thesis by simp
  next
    case False
    with "5.prems" ss sk c58 so sk2 have d44: "\<not> d \<noteq> 44" by (auto split: if_splits)
    from "5.prems" ss sk c58 so sk2 False d44 obtain q r4 where sk3: "skip_ws r3 = q # r4"
      by (cases "skip_ws r3") auto
    from skip_ws_Cons_less [OF sk3] have l4: "length r4 < length r3" .
    from "5.prems" ss sk c58 so sk2 False d44 sk3 have q34: "\<not> q \<noteq> 34"
      and lp: "JSONObject_loop n (pairs @ [(key, v1)]) r4 = Done v r"
      by (auto split: if_splits)
    from "5.IH"(2) [OF ss refl sk c58 so sk2 False d44 sk3 q34 lp]
      l0 l1 l2 l3 l4 show ?thesis by simp
  qed
next
  case (6 vs s)
  then show ?case by simp
next
  case (7 n vs s)
  from "7.prems" obtain v1 r1 where so: "scan_once n s = Done v1 r1"
    by (cases "scan_once n s") auto
  from "7.IH"(1) [OF so] have l1: "length r1 < length s" .
  from "7.prems" so obtain d r2 where sk: "skip_ws r1 = d # r2"
    by (cases "skip_ws r1") auto
  from skip_ws_Cons_less [OF sk] have l2: "length r2 < length r1" .
  show ?case
  proof (cases "d = 93")
    case True
    with "7.prems" so sk l1 l2 show ?thesis by simp
  next
    case False
    with "7.prems" so sk have d44: "\<not> d \<noteq> 44"
      and lp: "JSONArray_loop n (vs @ [v1]) (skip_ws r2) = Done v r"
      by (auto split: if_splits)
    from "7.IH"(2) [OF so sk False d44 lp] skip_ws_le [of r2] l1 l2 show ?thesis by simp
  qed
qed


lemma scan_fuel:
  "2 * length s < n \<Longrightarrow> scan_once n s \<noteq> OutOfFuel"
  "2 * length s + 1 < n \<Longrightarrow> JSONObject_loop n pairs s \<noteq> OutOfFuel"
  "2 * length s + 1 < n \<Longrightarrow> JSONArray_loop n vs s \<noteq> OutOfFuel"
proof (induction n s and n pairs s and n vs s
    rule: scan_once_JSONObject_loop_JSONArray_loop.induct)
  case (1 s)
  then show ?case by simp
next
  case (2 n)
  then show ?case by simp
next
  case (3 n c t)
  from "3.prems" have n: "2 * length t + 2 \<le> n" by simp
  show ?case
  proof
    assume e: "scan_once (Suc n) (c # t) = OutOfFuel"
    show False
    proof (cases "c = 34")
      case True
      with e show ?thesis by (auto split: option.splits)
    next
      case q: False
      show ?thesis
      proof (cases "c = 123")
        case True
        with q e obtain d r1 where sk: "skip_ws t = d # r1"
          by (cases "skip_ws t") auto
        from skip_ws_Cons_less [OF sk] have l1: "length r1 < length t" .
        from q True sk e have d125: "d \<noteq> 125" and d34: "d = 34"
          and lp: "JSONObject_loop n [] r1 = OutOfFuel"
          by (auto split: if_splits)
        from "3.IH"(1) [OF q True sk d125 d34] l1 n lp show ?thesis by simp
      next
        case b: False
        show ?thesis
        proof (cases "c = 91")
          case True
          show ?thesis
          proof (cases "skip_ws t")
            case Nil
            with q b True e have "JSONArray_loop n [] [] = OutOfFuel" by simp
            with "3.IH"(2) [OF q b True Nil] n show ?thesis by simp
          next
            case (Cons d r1)
            from skip_ws_le [of t] Cons have l1: "length (d # r1) \<le> length t" by simp
            from q b True Cons e have d93: "d \<noteq> 93"
              and lp: "JSONArray_loop n [] (d # r1) = OutOfFuel"
              by (auto split: if_splits)
            from "3.IH"(3) [OF q b True Cons d93] l1 n lp show ?thesis by simp
          qed
        next
          case a: False
          from q b a e show ?thesis
            by (auto split: if_splits option.splits)
        qed
      qed
    qed
  qed
next
  case (4 pairs s)
  then show ?case by simp
next
  case (5 n pairs s)
  from "5.prems" have n: "2 * length s < n" by simp
  show ?case
  proof
    assume e: "JSONObject_loop (Suc n) pairs s = OutOfFuel"
    from e obtain key r0 where ss: "scanstring [] s = Some (key, r0)"
      by (auto split: option.splits)
    from scanstring_shorter [OF ss] have l0: "length r0 < length s" .
    from e ss obtain c r1 where sk: "skip_ws r0 = c # r1"
      by (cases "skip_ws r0") auto
    from skip_ws_Cons_less [OF sk] have l1: "length r1 < length r0" .
    from e ss sk have c58: "\<not> c \<noteq> 58" by (auto split: if_splits)
    from skip_ws_le [of r1] l0 l1 n have f1: "2 * length (skip_ws r1) < n" by simp
    from "5.IH"(1) [OF ss refl sk c58 f1]
    have nf: "scan_once n (skip_ws r1) \<noteq> OutOfFuel" .
    with e ss sk c58 obtain v1 r2 where so: "scan_once n (skip_ws r1) = Done v1 r2"
      by (cases "scan_once n (skip_ws r1)") auto
    from scan_shorter(1) [OF so] skip_ws_le [of r1]
    have l2: "length r2 < length r1" by simp
    from e ss sk c58 so obtain d r3 where sk2: "skip_ws r2 = d # r3"
      by (cases "skip_ws r2") auto
    from skip_ws_Cons_less [OF sk2] have l3: "length r3 < length r2" .
    from e ss sk c58 so sk2 have d125: "d \<noteq> 125" and d44: "\<not> d \<noteq> 44"
      by (auto split: if_splits)
    from e ss sk c58 so sk2 d125 d44 obtain q r4 where sk3: "skip_ws r3 = q # r4"
      by (cases "skip_ws r3") auto
    from skip_ws_Cons_less [OF sk3] have l4: "length r4 < length r3" .
    from e ss sk c58 so sk2 d125 d44 sk3 have q34: "\<not> q \<noteq> 34"
      and lp: "JSONObject_loop n (pairs @ [(key, v1)]) r4 = OutOfFuel"
      by (auto split: if_splits)
    from l0 l1 l2 l3 l4 n have f2: "2 * length r4 + 1 < n" by simp
    from "5.IH"(2) [OF ss refl sk c58 so sk2 d125 d44 sk3 q34 f2] lp
    show False by simp
  qed
next
  case (6 vs s)
  then show ?case by simp
next
  case (7 n vs s)
  from "7.prems" have n: "2 * length s < n" by simp
  show ?case
  proof
    assume e: "JSONArray_loop (Suc n) vs s = OutOfFuel"
    from "7.IH"(1) [OF n] have nf: "scan_once n s \<noteq> OutOfFuel" .
    with e obtain v1 r1 where so: "scan_once n s = Done v1 r1"
      by (cases "scan_once n s") auto
    from scan_shorter(1) [OF so] have l1: "length r1 < length s" .
    from e so obtain d r2 where sk: "skip_ws r1 = d # r2"
      by (cases "skip_ws r1") auto
    from skip_ws_Cons_less [OF sk] have l2: "length r2 < length r1" .
    from e so sk have d93: "d \<noteq> 93" and d44: "\<not> d \<noteq> 44"
      and lp: "JSONArray_loop n (vs @ [v1]) (skip_ws r2) = OutOfFuel"
      by (auto split: if_splits)
    from skip_ws_le [of r2] l1 l2 n have f2: "2 * length (skip_ws r2) + 1 < n" by simp
    from "7.IH"(2) [OF so sk d93 d44 f2] lp show False by simp
  qed
qed

lemma json_loads_fuel:
  "scan_once (2 * length (skip_ws s) + 1) (skip_ws s) \<noteq> OutOfFuel"
  by (rule scan_fuel(1)) simp

section \<open>Properties of the response extractor\<close>

subsection \<open>Searching and slicing\<close>

lemma find_in_Some_prefix:
  "find_in sub s = Some i \<Longrightarrow> prefix sub (drop i s) \<and> i + length sub \<le> length s"
proof (induction s arbitrary: i)
  case Nil
  then show ?case by (simp split: if_splits)
next
  case (Cons c r)
  show ?case
  proof (cases "prefix sub (c # r)")
    case True
    with Cons.prems have "i = 0" by simp
    with True show ?thesis by (auto dest: prefix_length_le)
  next
    case False
    with Cons.prems obtain j where j: "find_in sub r = Some j" "i = Suc j" by auto
    from Cons.IH [OF j(1)] j(2) show ?thesis by simp
  qed
qed


lemma find_at_zero: "find_str s sub 0 = (case find_in sub s of None \<Rightarrow> - 1 | Some i \<Rightarrow> int i)"
  by (simp add: find_str_def clamp_index_def split: option.splits)

lemma find_from:
  "b \<le> length s \<Longrightarrow>
   find_str s sub (int b) = (case find_in sub (drop b s) of None \<Rightarrow> - 1 | Some i \<Rightarrow> int (b + i))"
  by (simp add: find_str_def clamp_index_def split: option.splits)

lemma slice_to_minus_one: "b \<le> length s \<Longrightarrow> slice s (int b) (- 1) = butlast (drop b s)"
proof -
  assume b: "b \<le> length s"
  have e: "clamp_index (length s) (- 1) = length s - 1"
    by (simp add: clamp_index_def max_def) linarith
  have "clamp_index (length s) (int b) = b" using b by (simp add: clamp_index_def)
  with e show ?thesis
    by (simp add: slice_def butlast_conv_take)
qed


lemma extract_open_json_fence:
  assumes "find_in fence_json t = Some i" and "find_in fence (drop (i + 7) t) = None"
  shows "extract_json_str t = strip (butlast (drop (i + 7) t))"
proof -
  have len: "i + 7 \<le> length t"
    using find_in_Some_prefix [OF assms(1)] by (simp add: fence_json_def lit_def)
  have c: "contains fence_json t" using assms(1) by (simp add: contains_def)
  have st: "find_str t fence_json 0 + 7 = int (i + 7)" using assms(1) by (simp add: find_at_zero)
  have en: "find_str t fence (int (i + 7)) = - 1"
    using assms(2) len find_from [of "i + 7" t fence] by simp
  show ?thesis
    unfolding extract_json_str_def Let_def st en using c len
    by (simp only: slice_to_minus_one if_True)
qed

lemma extract_open_fence:
  assumes "find_in fence_json t = None" and "find_in fence t = Some i"
    and "find_in fence (drop (i + 3) t) = None"
  shows "extract_json_str t = strip (butlast (drop (i + 3) t))"
proof -
  have len: "i + 3 \<le> length t"
    using find_in_Some_prefix [OF assms(2)] by (simp add: fence_def lit_def)
  have c: "\<not> contains fence_json t" "contains fence t" using assms by (simp_all add: contains_def)
  have st: "find_str t fence 0 + 3 = int (i + 3)" using assms(2) by (simp add: find_at_zero)
  have en: "find_str t fence (int (i + 3)) = - 1"
    using assms(3) len find_from [of "i + 3" t fence] by simp
  show ?thesis
    unfolding extract_json_str_def Let_def st en using c len
    by (simp only: slice_to_minus_one if_True if_False)
qed
















lemma parse_of_selection:
  "extract_json_str t = js \<Longrightarrow>
   parse_analysis_response t =
     (case json_loads js of None \<Rightarrow> Inr (failure_default t) | Some data \<Rightarrow> validate_data data)"
  by (simp add: parse_analysis_response_def)




subsection \<open>Sample responses, evaluated\<close>














lemma loads_cut: "json_loads (lit ''{\"a\":1'') = None"
  by code_simp

subsection \<open>Unparseable responses\<close>



subsection \<open>A missing required key\<close>




subsection \<open>Fenced and bare payloads\<close>




subsection \<open>A fence that is never closed\<close>

text \<open>
  C10. When the text has a fence-open marker and no fence marker after it, the search for
  the closing fence gives \<open>-1\<close> and the slice ends one character before the end of the
  text: the selected text is the trimmed text from just after the marker up to, and not
  including, the last character, and the result is what decoding that text gives. This
  holds for the tagged marker (seven characters) and for the untagged one (three).
\<close>

theorem open_fence_selection:
  "(find_in fence_json t = Some i \<and> find_in fence (drop (i + 7) t) = None \<longrightarrow>
      extract_json_str t = strip (butlast (drop (i + 7) t))
      \<and> parse_analysis_response t =
          (case json_loads (strip (butlast (drop (i + 7) t))) of
             None \<Rightarrow> Inr (failure_default t)
           | Some data \<Rightarrow> validate_data data))
   \<and> (find_in fence_json t = None \<and> find_in fence t = Some i
        \<and> find_in fence (drop (i + 3) t) = None \<longrightarrow>
      extract_json_str t = strip (butlast (drop (i + 3) t))
      \<and> parse_analysis_response t =
          (case json_loads (strip (butlast (drop (i + 3) t))) of
             None \<Rightarrow> Inr (failure_default t)
           | Some data \<Rightarrow> validate_data data))"
  using extract_open_json_fence [of t i] extract_open_fence [of t i]
    parse_of_selection [of t]
  by simp

theorem open_fence_selection_witness:
  "find_in fence_json (lit ''```json{\"a\":1}'') = Some 0
   \<and> find_in fence (drop (0 + 7) (lit ''```json{\"a\":1}'')) = None
   \<and> extract_json_str (lit ''```json{\"a\":1}'') = lit ''{\"a\":1''
   \<and> parse_analysis_response (lit ''```json{\"a\":1}'')
       = Inr (failure_default (lit ''```json{\"a\":1}''))
   \<and> find_in fence_json (lit ''```[1, 2]'') = None
   \<and> find_in fence (lit ''```[1, 2]'') = Some 0
   \<and> find_in fence (drop (0 + 3) (lit ''```[1, 2]'')) = None
   \<and> extract_json_str (lit ''```[1, 2]'') = lit ''[1, 2''"
proof -
  have a: "find_in fence_json (lit ''```json{\"a\":1}'') = Some 0"
    and b: "find_in fence (drop (0 + 7) (lit ''```json{\"a\":1}'')) = None"
    and c: "strip (butlast (drop (0 + 7) (lit ''```json{\"a\":1}''))) = lit ''{\"a\":1''"
    and e: "find_in fence_json (lit ''```[1, 2]'') = None"
    and f: "find_in fence (lit ''```[1, 2]'') = Some 0"
    and g: "find_in fence (drop (0 + 3) (lit ''```[1, 2]'')) = None"
    and h: "strip (butlast (drop (0 + 3) (lit ''```[1, 2]''))) = lit ''[1, 2''"
    by (simp_all add: fence_def fence_json_def lit_def strip_def isspace_def)
  from open_fence_selection [of "lit ''```json{\"a\":1}''" 0] a b
  have "extract_json_str (lit ''```json{\"a\":1}'') = lit ''{\"a\":1''
     \<and> parse_analysis_response (lit ''```json{\"a\":1}'')
       = (case json_loads (lit ''{\"a\":1'') of
            None \<Rightarrow> Inr (failure_default (lit ''```json{\"a\":1}''))
          | Some data \<Rightarrow> validate_data data)"
    by (simp only: c simp_thms)
  then have 1: "extract_json_str (lit ''```json{\"a\":1}'') = lit ''{\"a\":1''
     \<and> parse_analysis_response (lit ''```json{\"a\":1}'')
       = Inr (failure_default (lit ''```json{\"a\":1}''))"
    by (simp only: loads_cut option.case)
  from open_fence_selection [of "lit ''```[1, 2]''" 0] e f g
  have 2: "extract_json_str (lit ''```[1, 2]'') = lit ''[1, 2''"
    by (simp only: h simp_thms)
  from 1 2 a b e f g show ?thesis by simp
qed

section \<open>Properties of the analysis client\<close>



section \<open>Properties of the image normalizer\<close>

subsection \<open>Validation\<close>

text \<open>
  C7. A file of at most \<open>MAX_FILE_SIZE\<close> bytes that decodes as a PNG, JPEG or WEBP image is
  valid, with an empty reason. A file that is too large, does not decode, or decodes to a
  format outside the supported set is invalid, with a reason that is not empty. The
  verdict does not depend on the file name.
\<close>

theorem validate_image_verdicts:
  "(length file_content \<le> MAX_FILE_SIZE \<and> image_open lib file_content = Inr img
      \<and> im_format img \<in> {Some (lit ''PNG''), Some (lit ''JPEG''), Some (lit ''WEBP'')}
      \<longrightarrow> validate_image lib listing file_content filename = (True, []))
   \<and> (length file_content > MAX_FILE_SIZE
        \<or> (\<exists>e. image_open lib file_content = Inl e)
        \<or> (image_open lib file_content = Inr img
            \<and> (\<forall>f \<in> SUPPORTED_FORMATS. im_format img \<noteq> Some f))
      \<longrightarrow> fst (validate_image lib listing file_content filename) = False
          \<and> snd (validate_image lib listing file_content filename) \<noteq> [])
   \<and> validate_image lib listing file_content filename
       = validate_image lib listing file_content filename'"
  by (auto simp: validate_image_def SUPPORTED_FORMATS_def lit_def split: option.splits sum.splits)

subsection \<open>Sizes, modes and pixels\<close>












lemma BLEND8_opaque: "c \<le> 255 \<Longrightarrow> BLEND8 255 b c = c"
  by (simp add: BLEND8_def MULDIV255_def Let_def)









lemmas stub_eval =
  sample_pil_def sample_rgba_def sample_rgb_def sample_large_def sample_gif_def lit_def

lemma replicate_two: "replicate 2 x = [x, x]"
  by (simp add: numeral_2_eq_2)



lemma preserve_4000_3000:
  "preserve_aspect_ratio (4000, 3000) (1920, 1920) = Inr (Some (1920, 1440))"
  by (simp add: preserve_aspect_ratio_def round_aspect_def Let_def)


theorem validate_image_verdicts_witness:
  "validate_image sample_pil [lit ''PNG'', lit ''JPEG'', lit ''JPG'', lit ''WEBP'']
     ''small.png'' (lit ''notes.txt'') = (True, [])
   \<and> fst (validate_image sample_pil [] (replicate (Suc MAX_FILE_SIZE) CHR ''a'') []) = False
   \<and> snd (validate_image sample_pil [] (replicate (Suc MAX_FILE_SIZE) CHR ''a'') []) \<noteq> []
   \<and> fst (validate_image sample_pil [] ''not an image'' (lit ''x.png'')) = False
   \<and> snd (validate_image sample_pil [] ''not an image'' (lit ''x.png'')) \<noteq> []
   \<and> fst (validate_image sample_pil [] ''diagram.gif'' (lit ''diagram.png'')) = False
   \<and> snd (validate_image sample_pil [] ''diagram.gif'' (lit ''diagram.png'')) \<noteq> []"
proof -
  have s: "length ''small.png'' \<le> MAX_FILE_SIZE" by (simp add: MAX_FILE_SIZE_def)
  have o: "image_open sample_pil ''small.png'' = Inr sample_rgba" by (simp add: sample_pil_def)
  have f: "im_format sample_rgba \<in> {Some (lit ''PNG''), Some (lit ''JPEG''), Some (lit ''WEBP'')}"
    by (simp add: sample_rgba_def)
  from validate_image_verdicts [of "''small.png''" sample_pil sample_rgba
      "[lit ''PNG'', lit ''JPEG'', lit ''JPG'', lit ''WEBP'']" "lit ''notes.txt''"] s o f
  have 1: "validate_image sample_pil [lit ''PNG'', lit ''JPEG'', lit ''JPG'', lit ''WEBP'']
     ''small.png'' (lit ''notes.txt'') = (True, [])" by blast
  have "length (replicate (Suc MAX_FILE_SIZE) CHR ''a'') > MAX_FILE_SIZE" by simp
  with validate_image_verdicts [of "replicate (Suc MAX_FILE_SIZE) CHR ''a''" sample_pil _ "[]" "[]"]
  have 2: "fst (validate_image sample_pil [] (replicate (Suc MAX_FILE_SIZE) CHR ''a'') []) = False
   \<and> snd (validate_image sample_pil [] (replicate (Suc MAX_FILE_SIZE) CHR ''a'') []) \<noteq> []"
    by blast
  have "\<exists>e. image_open sample_pil ''not an image'' = Inl e" by (simp add: sample_pil_def)
  with validate_image_verdicts [of "''not an image''" sample_pil _ "[]" "lit ''x.png''"]
  have 3: "fst (validate_image sample_pil [] ''not an image'' (lit ''x.png'')) = False
   \<and> snd (validate_image sample_pil [] ''not an image'' (lit ''x.png'')) \<noteq> []"
    by blast
  have "image_open sample_pil ''diagram.gif'' = Inr sample_gif
      \<and> (\<forall>f \<in> SUPPORTED_FORMATS. im_format sample_gif \<noteq> Some f)"
    by (simp add: sample_pil_def sample_gif_def SUPPORTED_FORMATS_def lit_def)
  with validate_image_verdicts [of "''diagram.gif''" sample_pil sample_gif "[]" "lit ''diagram.png''"]
  have 4: "fst (validate_image sample_pil [] ''diagram.gif'' (lit ''diagram.png'')) = False
   \<and> snd (validate_image sample_pil [] ''diagram.gif'' (lit ''diagram.png'')) \<noteq> []"
    by blast
  from 1 2 3 4 show ?thesis by blast
qed

subsection \<open>Transparency\<close>



subsection \<open>Fitting\<close>



subsection \<open>Normalizing twice\<close>



section \<open>Failures of the normalizer and of the rasterizer\<close>

text \<open>
  C6. \<open>process_image\<close> and \<open>pdf_to_image\<close> return a pair in every case: the bytes and no
  error, or no bytes and an error text. A failure of decoding, conversion, resampling,
  rendering or encoding is returned as the text of the exception, and a rendering that
  gives no image is returned as \<^verbatim>\<open>Could not convert PDF page N\<close>.
\<close>

theorem failures_are_returned:
  "(image_open lib file_content = Inl e \<longrightarrow> process_image lib file_content = (None, Some e))
   \<and> (image_open lib file_content = Inr img \<and> to_rgb lib img = Inl e \<longrightarrow>
        process_image lib file_content = (None, Some e))
   \<and> (image_open lib file_content = Inr img \<and> to_rgb lib img = Inr rgb
        \<and> resize_if_large lib rgb = Inl e \<longrightarrow>
        process_image lib file_content = (None, Some e))
   \<and> (normalized_image lib file_content = Inr out \<and> save_png lib out = Inl e \<longrightarrow>
        process_image lib file_content = (None, Some e))
   \<and> ((\<exists>b. process_image lib file_content = (Some b, None))
        \<or> (\<exists>e. process_image lib file_content = (None, Some e)))
   \<and> (convert_from_bytes pdf_content page_number page_number = Inl e \<longrightarrow>
        pdf_to_image lib convert_from_bytes pdf_content page_number = (None, Some e))
   \<and> (convert_from_bytes pdf_content page_number page_number = Inr [] \<longrightarrow>
        pdf_to_image lib convert_from_bytes pdf_content page_number
          = (None, Some (lit ''Could not convert PDF page '' @ str_int page_number)))
   \<and> (convert_from_bytes pdf_content page_number page_number = Inr (img # imgs)
        \<and> to_rgb lib img = Inl e \<longrightarrow>
        pdf_to_image lib convert_from_bytes pdf_content page_number = (None, Some e))
   \<and> (convert_from_bytes pdf_content page_number page_number = Inr (img # imgs)
        \<and> to_rgb lib img = Inr rgb \<and> save_png lib rgb = Inl e \<longrightarrow>
        pdf_to_image lib convert_from_bytes pdf_content page_number = (None, Some e))
   \<and> ((\<exists>b. pdf_to_image lib convert_from_bytes pdf_content page_number = (Some b, None))
        \<or> (\<exists>e. pdf_to_image lib convert_from_bytes pdf_content page_number = (None, Some e)))"
  by (auto simp: process_image_def normalized_image_def pdf_to_image_def
      split: sum.splits list.splits)

theorem failures_are_returned_witness:
  "process_image sample_pil ''not an image'' = (None, Some (lit ''cannot identify image file''))
   \<and> process_image sample_pil ''diagram.gif'' = (None, Some (lit ''conversion not supported''))
   \<and> process_image (sample_pil\<lparr>resample := \<lambda>img sz. Inl (lit ''out of memory'')\<rparr>)
         ''large.jpg'' = (None, Some (lit ''out of memory''))
   \<and> process_image (sample_pil\<lparr>save_png := \<lambda>img. Inl (lit ''encoder error'')\<rparr>)
         ''small.png'' = (None, Some (lit ''encoder error''))
   \<and> pdf_to_image sample_pil (\<lambda>pdf first_page last_page. Inl (lit ''Unable to get page count.''))
         ''%PDF'' 1 = (None, Some (lit ''Unable to get page count.''))
   \<and> pdf_to_image sample_pil no_pages ''%PDF'' 7
       = (None, Some (lit ''Could not convert PDF page 7''))
   \<and> pdf_to_image sample_pil (\<lambda>pdf first_page last_page. Inr [sample_gif]) ''%PDF'' 1
       = (None, Some (lit ''conversion not supported''))
   \<and> pdf_to_image (sample_pil\<lparr>save_png := \<lambda>img. Inl (lit ''encoder error'')\<rparr>)
         (\<lambda>pdf first_page last_page. Inr [sample_rgb]) ''%PDF'' 1
       = (None, Some (lit ''encoder error''))"
proof -
  let ?nosave = "sample_pil\<lparr>save_png := \<lambda>img. Inl (lit ''encoder error'')\<rparr>"
  let ?nomem = "sample_pil\<lparr>resample := \<lambda>img sz. Inl (lit ''out of memory'')\<rparr>"
  have "image_open sample_pil ''not an image'' = Inl (lit ''cannot identify image file'')"
    by (simp add: sample_pil_def)
  with failures_are_returned [where lib = sample_pil and file_content = "''not an image''"
      and e = "lit ''cannot identify image file''"]
  have 1: "process_image sample_pil ''not an image''
      = (None, Some (lit ''cannot identify image file''))" by blast
  have "image_open sample_pil ''diagram.gif'' = Inr sample_gif
      \<and> to_rgb sample_pil sample_gif = Inl (lit ''conversion not supported'')"
    by (simp add: to_rgb_def expand_palette_def convert_def sample_pil_def sample_gif_def)
  with failures_are_returned [where lib = sample_pil and file_content = "''diagram.gif''"
      and e = "lit ''conversion not supported''" and img = sample_gif]
  have 2: "process_image sample_pil ''diagram.gif''
      = (None, Some (lit ''conversion not supported''))" by blast
  have "image_open ?nomem ''large.jpg'' = Inr sample_large
      \<and> to_rgb ?nomem sample_large = Inr sample_large
      \<and> resize_if_large ?nomem sample_large = Inl (lit ''out of memory'')"
    by (simp add: to_rgb_def resize_if_large_def thumbnail_def MAX_WIDTH_def MAX_HEIGHT_def
        preserve_4000_3000 sample_pil_def sample_large_def lit_def)
  with failures_are_returned [where lib = ?nomem and file_content = "''large.jpg''"
      and e = "lit ''out of memory''" and img = sample_large and rgb = sample_large]
  have 3: "process_image ?nomem ''large.jpg'' = (None, Some (lit ''out of memory''))"
    by blast
  let ?rgb = "\<lparr>im_format = None, im_mode = lit ''RGB'', im_size = (2, 1),
           im_data = [[255, 255, 255], [10, 20, 30]]\<rparr>"
  have o4: "image_open ?nosave ''small.png'' = Inr sample_rgba"
    by (simp add: sample_pil_def)
  have t4: "to_rgb ?nosave sample_rgba = Inr ?rgb"
    by (simp add: to_rgb_def expand_palette_def Image_new_def paste_def last_band_def
        colour_of_def BLEND8_def MULDIV255_def stub_eval replicate_two)
  have r4: "resize_if_large ?nosave ?rgb = Inr ?rgb"
    by (simp add: resize_if_large_def MAX_WIDTH_def MAX_HEIGHT_def)
  have n4: "normalized_image ?nosave ''small.png'' = Inr ?rgb"
    by (simp only: normalized_image_def o4 t4 r4 sum.case)
  have s4: "save_png ?nosave ?rgb = Inl (lit ''encoder error'')"
    by (simp add: sample_pil_def)
  from n4 s4 have "normalized_image ?nosave ''small.png'' = Inr ?rgb
      \<and> save_png ?nosave ?rgb = Inl (lit ''encoder error'')" by (rule conjI)
  with failures_are_returned [where lib = ?nosave and file_content = "''small.png''"
      and e = "lit ''encoder error''"
      and out = ?rgb]
  have 4: "process_image ?nosave ''small.png'' = (None, Some (lit ''encoder error''))"
    by blast
  from failures_are_returned [where lib = sample_pil
      and convert_from_bytes = "\<lambda>pdf first_page last_page. Inl (lit ''Unable to get page count.'')"
      and pdf_content = "''%PDF''" and page_number = 1 and e = "lit ''Unable to get page count.''"]
  have 5: "pdf_to_image sample_pil
      (\<lambda>pdf first_page last_page. Inl (lit ''Unable to get page count.'')) ''%PDF'' 1
      = (None, Some (lit ''Unable to get page count.''))" by blast
  have n: "lit ''Could not convert PDF page '' @ str_int 7 = lit ''Could not convert PDF page 7''"
    by (simp add: str_int_def digits.simps lit_def)
  have "no_pages ''%PDF'' 7 7 = Inr []" by (simp add: no_pages_def)
  with failures_are_returned [where lib = sample_pil and convert_from_bytes = no_pages
      and pdf_content = "''%PDF''" and page_number = 7]
  have "pdf_to_image sample_pil no_pages ''%PDF'' 7
       = (None, Some (lit ''Could not convert PDF page '' @ str_int 7))" by blast
  then have 6: "pdf_to_image sample_pil no_pages ''%PDF'' 7
       = (None, Some (lit ''Could not convert PDF page 7''))" by (simp only: n)
  have "to_rgb sample_pil sample_gif = Inl (lit ''conversion not supported'')"
    by (simp add: to_rgb_def expand_palette_def convert_def sample_pil_def sample_gif_def)
  with failures_are_returned [where lib = sample_pil
      and convert_from_bytes = "\<lambda>pdf first_page last_page. Inr [sample_gif]"
      and pdf_content = "''%PDF''" and page_number = 1 and img = sample_gif and imgs = "[]"
      and e = "lit ''conversion not supported''"]
  have 7: "pdf_to_image sample_pil (\<lambda>pdf first_page last_page. Inr [sample_gif]) ''%PDF'' 1
       = (None, Some (lit ''conversion not supported''))" by blast
  have "to_rgb ?nosave sample_rgb = Inr sample_rgb
      \<and> save_png ?nosave sample_rgb = Inl (lit ''encoder error'')"
    by (simp add: to_rgb_def sample_rgb_def sample_pil_def lit_def)
  with failures_are_returned [where lib = ?nosave
      and convert_from_bytes = "\<lambda>pdf first_page last_page. Inr [sample_rgb]"
      and pdf_content = "''%PDF''" and page_number = 1 and img = sample_rgb and imgs = "[]"
      and rgb = sample_rgb and e = "lit ''encoder error''"]
  have 8: "pdf_to_image ?nosave (\<lambda>pdf first_page last_page. Inr [sample_rgb]) ''%PDF'' 1
       = (None, Some (lit ''encoder error''))" by blast
  from 1 2 3 4 5 6 7 8 show ?thesis by blast
qed

end
